theory Spec2Isabelle
  imports Main "HOL-Library.AList" "HOL-Library.Char_ord" "HOL-Library.List_Lexorder"
    "HOL-Library.Sublist"
begin

section \<open>Leaderboard cache: fetcher, storage, scheduler and query layer of \<open>main.py\<close>\<close>

subsection \<open>Text and the SQL string functions\<close>

text \<open>
  Text is embedded as \<^typ>\<open>string\<close>. SQLite's built-in \<open>UPPER\<close>, \<open>LOWER\<close> and the
  case folding of \<open>LIKE\<close> act on the 26 ASCII letters only and leave every other character
  as it is. Python's \<open>str.lower\<close> is embedded on the same letters: case mappings outside
  ASCII need the Unicode tables and are not part of this development.
\<close>

definition upper_char :: "char \<Rightarrow> char" where
  "upper_char c =
     (case map_of (zip ''abcdefghijklmnopqrstuvwxyz'' ''ABCDEFGHIJKLMNOPQRSTUVWXYZ'') c of
        Some u \<Rightarrow> u | None \<Rightarrow> c)"

definition lower_char :: "char \<Rightarrow> char" where
  "lower_char c =
     (case map_of (zip ''ABCDEFGHIJKLMNOPQRSTUVWXYZ'' ''abcdefghijklmnopqrstuvwxyz'') c of
        Some l \<Rightarrow> l | None \<Rightarrow> c)"

definition UPPER :: "string \<Rightarrow> string" where
  "UPPER s = map upper_char s"

definition LOWER :: "string \<Rightarrow> string" where
  "LOWER s = map lower_char s"

definition lower :: "string \<Rightarrow> string" where
  \<comment> \<open>Python's \<open>str.lower\<close>\<close>
  "lower s = map lower_char s"

text \<open>
  \<open>text LIKE pattern\<close> with SQLite's defaults: \<open>%\<close> matches any run of characters, also the
  empty one, \<open>_\<close> matches exactly one character, any other character matches itself up to
  the case of ASCII letters. There is no escape character, since the query has no
  \<open>ESCAPE\<close> clause.
\<close>

fun LIKE :: "string \<Rightarrow> string \<Rightarrow> bool" where
  "LIKE [] [] = True"
| "LIKE (x # xs) [] = False"
| "LIKE [] (p # ps) = (p = CHR ''%'' \<and> LIKE [] ps)"
| "LIKE (x # xs) (p # ps) =
     (if p = CHR ''%'' then LIKE (x # xs) ps \<or> LIKE xs (p # ps)
      else (p = CHR ''_'' \<or> lower_char p = lower_char x) \<and> LIKE xs ps)"

subsection \<open>Data model\<close>

text \<open>
  A leaderboard entry as the remote API delivers it and as \<open>fetch_leaderboards\<close> and
  \<open>save_to_db\<close> handle it: a Python dict. \<open>p.get(key)\<close> is \<open>None\<close> both for a missing
  key and for a JSON \<open>null\<close>, so those fields are options. Only \<open>name\<close> is read with a
  default, \<open>p.get("name", "")\<close>, which tells a missing key from a \<open>null\<close>.
\<close>

datatype 'a field = Absent | Null | Val 'a

record player =
  rank :: "int option"
  name :: "string field"
  team_id :: "int option"
  team_tag :: "string option"
  sponsor :: "string option"
  country :: "string option"

text \<open>
  A row of table \<open>players\<close> without its \<open>region\<close> column: the six columns that
  \<open>get_players\<close> selects, so also the dict that \<open>dict(row)\<close> builds. \<open>rank\<close> and \<open>name\<close>
  are \<open>NOT NULL\<close>. The table is the list of its rows in insertion order, each paired with
  its region; the \<open>id\<close> column is never read and is left out. Table \<open>metadata\<close> is the
  list of its \<open>(key, value)\<close> rows.
\<close>

record player_row =
  rank :: int
  name :: string
  team_id :: "int option"
  team_tag :: "string option"
  sponsor :: "string option"
  country :: "string option"

record database =
  players :: "(string \<times> player_row) list"
  metadata :: "(string \<times> int) list"

text \<open>
  The exceptions that the functions below can raise. \<open>IntegrityError\<close> is a violated
  table constraint. \<open>OverflowError\<close> is raised by the \<open>sqlite3\<close> module when a bound
  Python integer does not fit SQLite's signed 64-bit \<open>INTEGER\<close>. \<open>JSONDecodeError\<close> is
  raised by \<open>response.json()\<close> on a body that is not JSON, \<open>AttributeError\<close> by
  \<open>data.get\<close> on JSON that is not an object, \<open>TypeError\<close> by \<open>enumerate(None)\<close> and
  by \<open>max\<close> of an integer and \<open>None\<close>.
\<close>

datatype error =
  IntegrityError | OverflowError | JSONDecodeError | AttributeError | TypeError

definition sqlite_int :: "int \<Rightarrow> bool" where
  "sqlite_int n = (- 9223372036854775808 \<le> n \<and> n \<le> 9223372036854775807)"

definition REGIONS :: "string list" where
  "REGIONS = [''americas'', ''europe'', ''se_asia'', ''china'']"

subsection \<open>Query layer: \<open>get_players\<close>, \<open>get_metadata\<close>, \<open>get_countries\<close>\<close>

text \<open>
  Python truthiness of the optional arguments: \<open>None\<close>, the integer 0, the empty list and
  the empty string are all false.
\<close>

fun truthy_int :: "int option \<Rightarrow> bool" where
  "truthy_int None = False"
| "truthy_int (Some n) = (n \<noteq> 0)"

fun truthy_list :: "'a list option \<Rightarrow> bool" where
  "truthy_list None = False"
| "truthy_list (Some xs) = (xs \<noteq> [])"

text \<open>
  The clauses that \<open>get_players\<close> appends to its \<open>WHERE\<close>, each as a predicate on a row.
  A clause whose value is SQL \<open>NULL\<close> rejects the row, as \<open>WHERE\<close> does.
\<close>

definition rank_clause :: "int option \<Rightarrow> int option \<Rightarrow> player_row \<Rightarrow> bool" where
  \<comment> \<open>\<open>if rank_from and rank_to: AND rank BETWEEN ? AND ?\<close>\<close>
  "rank_clause rank_from rank_to r =
     (if truthy_int rank_from \<and> truthy_int rank_to
      then the rank_from \<le> player_row.rank r \<and> player_row.rank r \<le> the rank_to
      else True)"

definition countries_clause :: "string list option \<Rightarrow> player_row \<Rightarrow> bool" where
  \<comment> \<open>\<open>if countries: AND UPPER(country) IN (?, ..., ?)\<close>, the list bound as it is\<close>
  "countries_clause countries r =
     (if truthy_list countries
      then (case player_row.country r of
              None \<Rightarrow> False
            | Some c \<Rightarrow> UPPER c \<in> set (the countries))
      else True)"

definition team_clause :: "string option \<Rightarrow> player_row \<Rightarrow> bool" where
  "team_clause team r =
     (if team = Some ''yes''
      then player_row.team_tag r \<noteq> None \<and> player_row.team_tag r \<noteq> Some ''''
      else if team = Some ''no''
      then player_row.team_tag r = None \<or> player_row.team_tag r = Some ''''
      else True)"

definition name_clause :: "string option \<Rightarrow> player_row \<Rightarrow> bool" where
  \<comment> \<open>\<open>if name_player: AND LOWER(name) LIKE ?\<close> with \<open>name_player.lower() + "%"\<close>\<close>
  "name_clause name_player r =
     (if truthy_list name_player
      then LIKE (LOWER (player_row.name r)) (lower (the name_player) @ ''%'')
      else True)"

text \<open>
  \<open>db.execute(query, params)\<close> binds the parameters first. The two rank bounds are the
  only integers among them, and they are in \<open>params\<close> only when the range clause was
  added: a bound outside the signed 64-bit range then raises \<open>OverflowError\<close> and no row
  is read.
\<close>

definition rank_params_fit :: "int option \<Rightarrow> int option \<Rightarrow> bool" where
  "rank_params_fit rank_from rank_to =
     (if truthy_int rank_from \<and> truthy_int rank_to
      then sqlite_int (the rank_from) \<and> sqlite_int (the rank_to)
      else True)"

definition get_players ::
  "database \<Rightarrow> string \<Rightarrow> int option \<Rightarrow> int option \<Rightarrow> string list option \<Rightarrow>
   string option \<Rightarrow> string option \<Rightarrow> error + player_row list" where
  "get_players db region rank_from rank_to countries team name_player =
     (if rank_params_fit rank_from rank_to
      then Inr (sort_key player_row.rank
             (map snd
                (filter (\<lambda>(reg, r). reg = region
                           \<and> rank_clause rank_from rank_to r
                           \<and> countries_clause countries r
                           \<and> team_clause team r
                           \<and> name_clause name_player r)
                   (players db))))
      else Inl OverflowError)"

definition get_metadata :: "database \<Rightarrow> (string \<rightharpoonup> int)" where
  \<comment> \<open>the dict \<open>{row[0]: row[1] for row in rows}\<close>, read by key\<close>
  "get_metadata db = map_of (metadata db)"

text \<open>
  \<open>SELECT DISTINCT\<close> keeps one copy of each value. The engine does not promise an order
  for them; the embedding keeps the first occurrences in table order.
\<close>

fun distinct_values :: "'a list \<Rightarrow> 'a list" where
  "distinct_values [] = []"
| "distinct_values (x # xs) = x # distinct_values (filter (\<lambda>y. y \<noteq> x) xs)"

text \<open>
  \<open>countries_by_alpha2\<close> of the \<open>iso3166\<close> package is a parameter: the table from an
  alpha-2 code to the country's name. A \<open>Country\<close> tuple is always true in \<open>if country\<close>,
  so the \<open>else\<close> branch is taken exactly for a code without an entry. The result is a
  dict, which keeps insertion order: an association list.
\<close>

definition get_countries ::
  "(string \<rightharpoonup> string) \<Rightarrow> database \<Rightarrow> string \<Rightarrow> (string \<times> string) list" where
  "get_countries countries_by_alpha2 db region =
     (let codes = distinct_values
            (map UPPER
               (List.map_filter (\<lambda>(reg, r). if reg = region then player_row.country r else None)
                  (players db)));
          countries_full = map (\<lambda>code. (code,
            (case countries_by_alpha2 code of Some n \<Rightarrow> n | None \<Rightarrow> ''Unknown''))) codes
      in sort_key snd countries_full)"

subsection \<open>Remote fetcher: \<open>fetch_leaderboards\<close>\<close>

text \<open>
  \<open>asyncio.gather\<close> with \<open>return_exceptions=True\<close> hands back, for each region, either
  the exception of the call or its response. The code does not look at the status of a
  response: whatever body came back goes to \<open>response.json()\<close>. A body is text that is
  not JSON, such as the page of an HTTP error, or JSON that is not an object, or a JSON
  object, read with \<open>data.get(key, default)\<close>. Each of the three keys of an object is
  missing, \<open>null\<close> or holds a value: a list of player objects, and two integers. Values
  of other JSON types under these keys are not embedded.
\<close>

record api_data =
  leaderboard :: "player list field"
  time_posted :: "int field"
  next_scheduled_post_time :: "int field"

datatype body = NotJSON | NotObject | Object api_data

datatype response = Exception string | Response body

text \<open>
  The dict \<open>database\<close> that \<open>fetch_leaderboards\<close> returns: the region keys with their
  lists, kept as an association list in insertion order, and the two timestamp keys.
  \<open>database[region] = leaderboard\<close> is \<^const>\<open>AList.update\<close>, \<open>data.get(region)\<close> is
  \<^const>\<open>map_of\<close>. \<open>save_to_db\<close> reads all keys with \<open>data.get\<close>.
\<close>

record snapshot =
  boards :: "(string \<times> player list) list"
  time_posted :: "int option"
  next_scheduled_post_time :: "int option"

fun enumerate_rank :: "int \<Rightarrow> player list \<Rightarrow> player list" where
  \<comment> \<open>\<open>for idx, player in enumerate(leaderboard, start=1): player["rank"] = idx\<close>,
      the counter \<open>idx\<close> as an argument\<close>
  "enumerate_rank idx [] = []"
| "enumerate_rank idx (p # ps) = p\<lparr>player.rank := Some idx\<rparr> # enumerate_rank (idx + 1) ps"

fun get_default :: "'a option \<Rightarrow> 'a \<Rightarrow> 'a" where
  \<comment> \<open>\<open>d.get(key, default)\<close> on the looked-up key\<close>
  "get_default None d = d"
| "get_default (Some v) d = v"

fun get_field :: "'a field \<Rightarrow> 'a \<Rightarrow> 'a option" where
  \<comment> \<open>\<open>data.get(key, default)\<close> on a JSON object: the default for a missing key only,
      Python's \<open>None\<close> for \<open>null\<close>\<close>
  "get_field Absent d = Some d"
| "get_field Null d = None"
| "get_field (Val v) d = Some v"

text \<open>
  The loop over \<open>zip(REGIONS, responses)\<close>, on the state
  \<open>(database, latest_time_posted, latest_next_update)\<close>. Nothing in the loop catches an
  exception: \<open>response.json()\<close> on a body that is not JSON, \<open>data.get\<close> on JSON that is
  not an object, \<open>enumerate\<close> of a \<open>null\<close> leaderboard and \<open>max\<close> with a \<open>null\<close>
  timestamp end the whole loop, whatever the other regions returned.
\<close>

fun fetch_loop ::
  "(string \<times> response) list \<Rightarrow> (string \<times> player list) list \<times> int \<times> int \<Rightarrow>
   error + (string \<times> player list) list \<times> int \<times> int" where
  "fetch_loop [] st = Inr st"
| "fetch_loop ((region, Exception e) # rest) st = fetch_loop rest st"
| "fetch_loop ((region, Response NotJSON) # rest) st = Inl JSONDecodeError"
| "fetch_loop ((region, Response NotObject) # rest) st = Inl AttributeError"
| "fetch_loop ((region, Response (Object data)) # rest)
       (database, latest_time_posted, latest_next_update) =
     (case (get_field (leaderboard data) [],
            get_field (api_data.time_posted data) 0,
            get_field (api_data.next_scheduled_post_time data) 0) of
        (Some entries, Some tp, Some np) \<Rightarrow>
          fetch_loop rest
            (AList.update region (enumerate_rank 1 entries) database,
             max latest_time_posted tp,
             max latest_next_update np)
      | _ \<Rightarrow> Inl TypeError)"

definition fetch_leaderboards :: "(string \<Rightarrow> response) \<Rightarrow> error + snapshot option" where
  "fetch_leaderboards client_get =
     (let responses = map client_get REGIONS
      in case fetch_loop (zip REGIONS responses) ([], 0, 0) of
           Inl e \<Rightarrow> Inl e
         | Inr (database, latest_time_posted, latest_next_update) \<Rightarrow>
             Inr (if database = [] then None
                  else Some \<lparr>boards = database,
                             time_posted = Some latest_time_posted,
                             next_scheduled_post_time = Some latest_next_update\<rparr>))"

subsection \<open>Storage: \<open>save_to_db\<close>\<close>

text \<open>
  The column values that \<open>save_to_db\<close> binds for a player: \<open>p.get("rank")\<close>,
  \<open>p.get("name", "")\<close> and the four optional columns. \<open>rank\<close> and \<open>name\<close> are
  \<open>NOT NULL\<close>: the result is \<open>None\<close> when one of them is \<open>None\<close>.
\<close>

definition insert_values :: "player \<Rightarrow> player_row option" where
  "insert_values p =
     (case (player.rank p,
            (case player.name p of Absent \<Rightarrow> Some [] | Null \<Rightarrow> None | Val s \<Rightarrow> Some s)) of
        (Some rk, Some nm) \<Rightarrow>
          Some \<lparr>player_row.rank = rk, name = nm, team_id = player.team_id p,
                team_tag = player.team_tag p, sponsor = player.sponsor p,
                country = player.country p\<rparr>
      | _ \<Rightarrow> None)"

fun bindable :: "int option \<Rightarrow> bool" where
  \<comment> \<open>\<open>None\<close> is bound as \<open>NULL\<close>, an integer only within 64 bits\<close>
  "bindable None = True"
| "bindable (Some n) = sqlite_int n"

text \<open>
  One \<open>INSERT INTO players\<close>. The parameters are bound first: \<open>rank\<close> and \<open>team_id\<close>
  are the integers among them. Then the table's constraints decide: the \<open>NOT NULL\<close>
  columns, and \<open>UNIQUE(region, rank)\<close>. A new row goes to the end of the table.
\<close>

definition insert_player ::
  "string \<Rightarrow> player \<Rightarrow> (string \<times> player_row) list \<Rightarrow> error + (string \<times> player_row) list" where
  "insert_player region p tbl =
     (if bindable (player.rank p) \<and> bindable (player.team_id p)
      then (case insert_values p of
              None \<Rightarrow> Inl IntegrityError
            | Some r \<Rightarrow>
                if (region, player_row.rank r)
                     \<in> set (map (\<lambda>(reg, r'). (reg, player_row.rank r')) tbl)
                then Inl IntegrityError
                else Inr (tbl @ [(region, r)]))
      else Inl OverflowError)"

fun executemany :: "string \<Rightarrow> player list \<Rightarrow> (string \<times> player_row) list \<Rightarrow>
   error + (string \<times> player_row) list" where
  "executemany region [] tbl = Inr tbl"
| "executemany region (p # ps) tbl =
     (case insert_player region p tbl of
        Inl e \<Rightarrow> Inl e
      | Inr tbl' \<Rightarrow> executemany region ps tbl')"

text \<open>
  The body of the loop over \<open>REGIONS\<close> for one region: nothing for a missing or empty
  list, else \<open>DELETE FROM players WHERE region = ?\<close> and the inserts.
\<close>

definition replace_region ::
  "snapshot \<Rightarrow> string \<Rightarrow> (string \<times> player_row) list \<Rightarrow> error + (string \<times> player_row) list" where
  "replace_region data region tbl =
     (let players = get_default (map_of (boards data) region) []
      in if players = [] then Inr tbl
         else executemany region players (filter (\<lambda>(reg, r). reg \<noteq> region) tbl))"

fun save_regions ::
  "string list \<Rightarrow> snapshot \<Rightarrow> (string \<times> player_row) list \<Rightarrow> error + (string \<times> player_row) list" where
  "save_regions [] data tbl = Inr tbl"
| "save_regions (region # rest) data tbl =
     (case replace_region data region tbl of
        Inl e \<Rightarrow> Inl e
      | Inr tbl' \<Rightarrow> save_regions rest data tbl')"

text \<open>
  \<open>INSERT OR REPLACE INTO metadata\<close>: the value is bound, then, \<open>key\<close> being the primary
  key, a row with the same key is removed before the new row is added.
\<close>

definition insert_or_replace ::
  "string \<Rightarrow> int \<Rightarrow> (string \<times> int) list \<Rightarrow> error + (string \<times> int) list" where
  "insert_or_replace key v tbl =
     (if sqlite_int v then Inr (filter (\<lambda>(k, _). k \<noteq> key) tbl @ [(key, v)])
      else Inl OverflowError)"

text \<open>
  All writes of \<open>save_to_db\<close> sit in one transaction, committed at the end. An exception
  leaves the \<open>async with\<close> block before the commit, the connection closes and the
  database keeps its old content: the result \<open>Inl\<close>.
\<close>

definition save_to_db :: "snapshot \<Rightarrow> database \<Rightarrow> error + database" where
  "save_to_db data db =
     (case save_regions REGIONS data (players db) of
        Inl e \<Rightarrow> Inl e
      | Inr tbl \<Rightarrow>
          (case insert_or_replace ''time_posted''
                  (get_default (snapshot.time_posted data) 0) (metadata db) of
             Inl e \<Rightarrow> Inl e
           | Inr meta \<Rightarrow>
               (case insert_or_replace ''next_scheduled_post_time''
                       (get_default (snapshot.next_scheduled_post_time data) 0) meta of
                  Inl e \<Rightarrow> Inl e
                | Inr meta' \<Rightarrow> Inr \<lparr>players = tbl, metadata = meta'\<rparr>)))"

subsection \<open>Scheduler: one turn of the loop of \<open>scheduled_task\<close>\<close>

text \<open>
  One pass through the body of \<open>while True\<close>: the responses of this cycle and the clock
  reading \<open>int(time.time())\<close> taken after the save are inputs, the result is the database
  after the cycle and the number of seconds handed to \<open>asyncio.sleep\<close>. A fetched dict
  always holds keys, so \<open>if data\<close> fails for \<open>None\<close> only. An exception of the fetch or of
  the save ends in the \<open>except\<close> branch.
\<close>

definition scheduled_task_cycle :: "(string \<Rightarrow> response) \<Rightarrow> int \<Rightarrow> database \<Rightarrow> database \<times> int" where
  "scheduled_task_cycle client_get now db =
     (case fetch_leaderboards client_get of
        Inl e \<Rightarrow> (db, 60)
      | Inr None \<Rightarrow> (db, 300)
      | Inr (Some data) \<Rightarrow>
          (case save_to_db data db of
             Inl e \<Rightarrow> (db, 60)
           | Inr db' \<Rightarrow>
               (let next_update = get_default (snapshot.next_scheduled_post_time data) 0
                in if next_update > now then (db', next_update - now) else (db', 3600))))"

subsection \<open>Example data\<close>

text \<open>Concrete rows, responses and snapshots on which the theorems below are run.\<close>

definition example_row :: "int \<Rightarrow> string \<Rightarrow> string option \<Rightarrow> string option \<Rightarrow> player_row" where
  "example_row rk nm c tag =
     \<lparr>player_row.rank = rk, name = nm, team_id = None, team_tag = tag, sponsor = None,
      country = c\<rparr>"

definition example_db :: database where
  "example_db =
     \<lparr>players = [(''china'', example_row 1 ''Zed'' None None),
                 (''europe'', example_row 1 ''John'' (Some ''US'') (Some [])),
                 (''europe'', example_row 2 ''joanna'' (Some ''se'') (Some ''ABC'')),
                 (''europe'', example_row 3 ''Bjorn'' (Some ''US'') (Some ''XYZ''))],
      metadata = []\<rparr>"

definition example_player :: "string \<Rightarrow> string option \<Rightarrow> player" where
  "example_player nm c =
     \<lparr>player.rank = None, name = Val nm, team_id = None, team_tag = None, sponsor = None,
      country = c\<rparr>"

definition example_client :: "string \<Rightarrow> response" where
  "example_client region =
     (if region = ''europe''
      then Response (Object \<lparr>leaderboard = Val [example_player ''Ana'' (Some ''ua''),
                                                example_player ''Bo'' None],
                             time_posted = Val 1000, next_scheduled_post_time = Val 1600\<rparr>)
      else if region = ''china''
      then Response (Object \<lparr>leaderboard = Absent, time_posted = Val 900,
                             next_scheduled_post_time = Absent\<rparr>)
      else Exception ''timeout'')"

definition outage_client :: "string \<Rightarrow> response" where
  "outage_client region = Exception ''timeout''"

definition past_client :: "string \<Rightarrow> response" where
  "past_client region =
     (if region = ''europe''
      then Response (Object \<lparr>leaderboard = Val [example_player ''Ana'' None],
                             time_posted = Val (- 5), next_scheduled_post_time = Val (- 3)\<rparr>)
      else Exception ''timeout'')"

text \<open>
  The call for \<open>americas\<close> comes back with the page of an HTTP error, the call for
  \<open>europe\<close> with a leaderboard, the other two calls fail.
\<close>

definition error_page_client :: "string \<Rightarrow> response" where
  "error_page_client region =
     (if region = ''americas'' then Response NotJSON
      else if region = ''europe''
      then Response (Object \<lparr>leaderboard = Val [example_player ''Ana'' (Some ''ua'')],
                             time_posted = Val 1000, next_scheduled_post_time = Val 1600\<rparr>)
      else Exception ''timeout'')"

definition example_snapshot :: snapshot where
  "example_snapshot =
     \<lparr>boards = [(''europe'', [(example_player ''Ana'' (Some ''ua''))\<lparr>player.rank := Some 1\<rparr>,
                             (example_player ''Bo'' None)\<lparr>player.rank := Some 2\<rparr>]),
                (''china'', [])],
      time_posted = Some 1000, next_scheduled_post_time = Some 1600\<rparr>"

definition example_saved :: database where
  "example_saved =
     \<lparr>players = [(''china'', example_row 1 ''Zed'' None None),
                 (''europe'', example_row 1 ''Ana'' (Some ''ua'') None),
                 (''europe'', example_row 2 ''Bo'' None None)],
      metadata = [(''time_posted'', 1000), (''next_scheduled_post_time'', 1600)]\<rparr>"

definition shuffled_snapshot :: snapshot where
  "shuffled_snapshot =
     \<lparr>boards = [(''europe'', [(example_player ''Bo'' None)\<lparr>player.rank := Some 2\<rparr>,
                             (example_player ''Ana'' (Some ''ua''))\<lparr>player.rank := Some 1\<rparr>])],
      time_posted = Some 7, next_scheduled_post_time = None\<rparr>"

definition shuffled_saved :: database where
  "shuffled_saved =
     \<lparr>players = [(''china'', example_row 1 ''Zed'' None None),
                 (''europe'', example_row 2 ''Bo'' None None),
                 (''europe'', example_row 1 ''Ana'' (Some ''ua'') None)],
      metadata = [(''time_posted'', 7), (''next_scheduled_post_time'', 0)]\<rparr>"

definition empty_snapshot :: snapshot where
  "empty_snapshot =
     \<lparr>boards = [(''europe'', [])], time_posted = Some 7, next_scheduled_post_time = Some 8\<rparr>"

definition example_table :: "string \<rightharpoonup> string" where
  "example_table = [''SE'' \<mapsto> ''Sweden'', ''US'' \<mapsto> ''United States of America'']"

section \<open>Verified properties\<close>

lemmas clause_defs = rank_clause_def countries_clause_def team_clause_def name_clause_def

lemmas text_defs = UPPER_def LOWER_def lower_def upper_char_def lower_char_def

lemmas storage_defs = save_to_db_def replace_region_def insert_player_def insert_values_def
  insert_or_replace_def sqlite_int_def

subsection \<open>Query layer\<close>

lemma get_players_no_filter:
  "get_players db region None None None None None =
     Inr (sort_key player_row.rank
            (map snd (filter (\<lambda>(reg, r). reg = region) (players db))))"
  by (simp add: get_players_def rank_params_fit_def clause_defs)

lemma region_filter_split:
  assumes "\<And>r. Q r = (P r \<and> Q' r)"
  shows "sort_key f (map snd (filter (\<lambda>(reg, r). reg = region \<and> Q r) xs)) =
           filter P (sort_key f (map snd (filter (\<lambda>(reg, r). reg = region \<and> Q' r) xs)))"
proof -
  have "filter (\<lambda>(reg, r). reg = region \<and> Q r) xs =
      filter (P \<circ> snd) (filter (\<lambda>(reg, r). reg = region \<and> Q' r) xs)"
    by (induction xs) (auto simp: assms)
  then show ?thesis
    by (simp add: filter_sort filter_map)
qed

text \<open>
  A clause that splits into a predicate and the clauses of a second query, when both
  queries bind their parameters alike.
\<close>

lemma get_players_filter:
  assumes "\<And>r. (rank_clause rank_from rank_to r \<and> countries_clause countries r
             \<and> team_clause team r \<and> name_clause name_player r) =
           (P r \<and> rank_clause rank_from' rank_to' r \<and> countries_clause countries' r
             \<and> team_clause team' r \<and> name_clause name_player' r)"
    and "rank_params_fit rank_from rank_to = rank_params_fit rank_from' rank_to'"
  shows "get_players db region rank_from rank_to countries team name_player =
           map_sum id (filter P)
             (get_players db region rank_from' rank_to' countries' team' name_player')"
proof (cases "rank_params_fit rank_from' rank_to'")
  case True
  then show ?thesis
    unfolding get_players_def assms(2)
    by (simp add: region_filter_split [where P = P, OF assms(1)])
next
  case False
  then show ?thesis
    by (simp add: get_players_def assms(2))
qed

text \<open>
  Claim C10. A rank bound equal to 0 switches the range clause off: with \<open>rank_from = 0\<close>
  and any \<open>rank_to\<close>, or with \<open>rank_to = 0\<close> and any \<open>rank_from\<close>, \<open>get_players\<close> returns
  what it returns with both bounds absent.
\<close>

theorem zero_bound_disables_range:
  "get_players db region (Some 0) rank_to countries team name_player =
     get_players db region None None countries team name_player
   \<and> get_players db region rank_from (Some 0) countries team name_player =
     get_players db region None None countries team name_player"
  by (simp add: get_players_def rank_clause_def rank_params_fit_def)

text \<open>
  Claim C7, for bounds different from 0 that SQLite can bind. One bound alone is the same
  as no bound. Two bounds different from 0 apply the inclusive range when both lie in the
  signed 64-bit range; when one of them does not, the call raises \<open>OverflowError\<close>.
\<close>

theorem range_needs_both_bounds:
  "get_players db region (Some a) None countries team name_player =
     get_players db region None None countries team name_player
   \<and> get_players db region None (Some b) countries team name_player =
     get_players db region None None countries team name_player
   \<and> (a \<noteq> 0 \<and> b \<noteq> 0 \<longrightarrow>
        get_players db region (Some a) (Some b) countries team name_player =
          (if sqlite_int a \<and> sqlite_int b
           then map_sum id (filter (\<lambda>r. a \<le> player_row.rank r \<and> player_row.rank r \<le> b))
                  (get_players db region None None countries team name_player)
           else Inl OverflowError))"
proof -
  have "get_players db region (Some a) None countries team name_player =
      get_players db region None None countries team name_player"
    by (simp add: get_players_def rank_clause_def rank_params_fit_def)
  moreover have "get_players db region None (Some b) countries team name_player =
      get_players db region None None countries team name_player"
    by (simp add: get_players_def rank_clause_def rank_params_fit_def)
  moreover have "get_players db region (Some a) (Some b) countries team name_player =
      map_sum id (filter (\<lambda>r. a \<le> player_row.rank r \<and> player_row.rank r \<le> b))
        (get_players db region None None countries team name_player)"
    if "a \<noteq> 0" "b \<noteq> 0" "sqlite_int a \<and> sqlite_int b"
    by (rule get_players_filter)
      (use that in \<open>simp_all add: rank_clause_def rank_params_fit_def\<close>)
  moreover have "get_players db region (Some a) (Some b) countries team name_player =
      Inl OverflowError"
    if "a \<noteq> 0" "b \<noteq> 0" "\<not> (sqlite_int a \<and> sqlite_int b)"
    using that by (simp add: get_players_def rank_params_fit_def)
  ultimately show ?thesis by presburger
qed

theorem range_needs_both_bounds_witness:
  "(2::int) \<noteq> 0 \<and> (3::int) \<noteq> 0 \<and> sqlite_int 2 \<and> sqlite_int 3
   \<and> map_sum id (map player_row.rank)
       (get_players example_db ''europe'' (Some 2) (Some 3) None None None) = Inr [2, 3]
   \<and> get_players example_db ''europe'' (Some 2) None None None None =
       get_players example_db ''europe'' None None None None None
   \<and> get_players example_db ''europe'' (Some 1) (Some 9223372036854775808) None None None =
       Inl OverflowError"
  using range_needs_both_bounds [of example_db "''europe''" 2 None None None 3]
    range_needs_both_bounds [of example_db "''europe''" 1 None None None 9223372036854775808]
  by (simp add: get_players_def rank_params_fit_def sqlite_int_def example_db_def
        example_row_def clause_defs)

text \<open>
  With \<open>rank_from = 0\<close> and \<open>rank_to = 1\<close> both bounds are supplied, and the rows of rank 2
  and 3 are returned all the same. With \<open>rank_from = 1\<close> and \<open>rank_to\<close> equal to 2 to the
  power 63 both bounds are supplied and different from 0, and no row is returned: the
  call raises.
\<close>

theorem range_zero_bound_counterexample:
  "map_sum id (map player_row.rank)
     (get_players example_db ''europe'' (Some 0) (Some 1) None None None) = Inr [1, 2, 3]
   \<and> get_players example_db ''europe'' (Some 1) (Some 9223372036854775808) None None None =
     Inl OverflowError"
  by (simp add: get_players_def rank_params_fit_def sqlite_int_def example_db_def
        example_row_def clause_defs)

text \<open>
  Claim C1, with the members of the list compared as they are passed. For a non-empty
  list of codes, \<open>get_players\<close> returns the stored rows of the region that have a country
  code whose upper-case form is a member of the list. The filter composes with the other
  filters.
\<close>

theorem countries_filter_upper_member:
  "countries \<noteq> [] \<Longrightarrow>
   get_players db region None None (Some countries) None None =
     Inr (sort_key player_row.rank
            (map snd (filter (\<lambda>(reg, r). reg = region
                        \<and> (\<exists>c. player_row.country r = Some c \<and> UPPER c \<in> set countries))
               (players db))))
   \<and> get_players db region rank_from rank_to (Some countries) team name_player =
     map_sum id (filter (\<lambda>r. \<exists>c. player_row.country r = Some c \<and> UPPER c \<in> set countries))
       (get_players db region rank_from rank_to None team name_player)"
proof -
  assume ne: "countries \<noteq> []"
  have clause: "countries_clause (Some countries) r =
      (\<exists>c. player_row.country r = Some c \<and> UPPER c \<in> set countries)" for r
    using ne by (simp add: countries_clause_def split: option.splits)
  have "get_players db region None None (Some countries) None None =
     Inr (sort_key player_row.rank
            (map snd (filter (\<lambda>(reg, r). reg = region
                        \<and> (\<exists>c. player_row.country r = Some c \<and> UPPER c \<in> set countries))
               (players db))))"
    by (simp add: get_players_def rank_params_fit_def clause rank_clause_def team_clause_def
          name_clause_def)
  moreover have "get_players db region rank_from rank_to (Some countries) team name_player =
     map_sum id (filter (\<lambda>r. \<exists>c. player_row.country r = Some c \<and> UPPER c \<in> set countries))
       (get_players db region rank_from rank_to None team name_player)"
  proof (rule get_players_filter)
    fix r
    have "countries_clause None r" by (simp add: countries_clause_def)
    then show "(rank_clause rank_from rank_to r \<and> countries_clause (Some countries) r
          \<and> team_clause team r \<and> name_clause name_player r) =
        ((\<exists>c. player_row.country r = Some c \<and> UPPER c \<in> set countries)
          \<and> rank_clause rank_from rank_to r \<and> countries_clause None r
          \<and> team_clause team r \<and> name_clause name_player r)"
      unfolding clause by blast
  qed simp
  ultimately show ?thesis by blast
qed

theorem countries_filter_upper_member_witness:
  "[''US''] \<noteq> []
   \<and> map_sum id (map player_row.rank)
       (get_players example_db ''europe'' None None (Some [''US'']) None None) = Inr [1, 3]
   \<and> map_sum id (map player_row.rank)
       (get_players example_db ''europe'' None None (Some [''US'']) (Some ''yes'') None) =
       Inr [3]"
  using countries_filter_upper_member [of "[''US'']" example_db "''europe''" None None "Some ''yes''" None]
  by (simp add: get_players_def rank_params_fit_def example_db_def example_row_def clause_defs
        text_defs)

text \<open>
  The stored rows of rank 1 and 3 have country \<open>US\<close>. The lower-case member \<open>us\<close> finds
  neither of them, with or without the team filter.
\<close>

theorem countries_filter_lower_case_counterexample:
  "get_players example_db ''europe'' None None (Some [''us'']) None None = Inr []
   \<and> get_players example_db ''europe'' None None (Some [''us'']) (Some ''yes'') None = Inr []"
  by (simp add: get_players_def rank_params_fit_def example_db_def example_row_def clause_defs
        text_defs)

subsection \<open>The name filter\<close>

lemma lower_char_idem: "lower_char (lower_char c) = lower_char c"
  by (auto simp: lower_char_def split: if_splits)

lemma lower_char_wildcard:
  "lower_char c = CHR ''%'' \<longleftrightarrow> c = CHR ''%''"
  "lower_char c = CHR ''_'' \<longleftrightarrow> c = CHR ''_''"
  by (auto simp: lower_char_def split: if_splits)

lemma LIKE_percent: "LIKE s ''%''"
  by (induction s) simp_all

lemma LIKE_plain_prefix:
  "CHR ''%'' \<notin> set p \<Longrightarrow> CHR ''_'' \<notin> set p \<Longrightarrow>
   LIKE s (p @ ''%'') \<longleftrightarrow> prefix (map lower_char p) (map lower_char s)"
proof (induction p arbitrary: s)
  case Nil
  then show ?case by (simp add: LIKE_percent)
next
  case (Cons c p)
  note step = Cons.IH and plain = Cons.prems
  show ?case
  proof (cases s)
    case Nil
    with plain show ?thesis by auto
  next
    case (Cons x xs)
    with plain step [of xs] show ?thesis by auto
  qed
qed

text \<open>
  A prefix without the two wildcard characters of \<open>LIKE\<close> is matched as a prefix, up to
  the case of ASCII letters. The statement is for ASCII text, where \<^const>\<open>lower\<close> is
  what \<open>str.lower\<close> does.
\<close>

lemma name_clause_plain_prefix:
  assumes "name_player \<noteq> []" "CHR ''%'' \<notin> set name_player" "CHR ''_'' \<notin> set name_player"
    and "\<forall>c \<in> set name_player. (of_char c :: nat) < 128"
    and "\<forall>c \<in> set (player_row.name r). (of_char c :: nat) < 128"
  shows "name_clause (Some name_player) r \<longleftrightarrow>
           prefix (lower name_player) (lower (player_row.name r))"
proof -
  have "c \<in> set name_player \<Longrightarrow> lower_char c \<noteq> CHR ''%'' \<and> lower_char c \<noteq> CHR ''_''" for c
    using assms(2,3) by (auto simp: lower_char_wildcard)
  then have "CHR ''%'' \<notin> set (lower name_player)" "CHR ''_'' \<notin> set (lower name_player)"
    unfolding lower_def by (metis (no_types, lifting) image_iff list.set_map)+
  then have "LIKE (LOWER (player_row.name r)) (lower name_player @ ''%'') \<longleftrightarrow>
      prefix (map lower_char (lower name_player)) (map lower_char (LOWER (player_row.name r)))"
    by (rule LIKE_plain_prefix)
  then show ?thesis
    using assms(1) by (simp add: name_clause_def lower_def LOWER_def lower_char_idem o_def)
qed

lemma name_prefix_example:
  "map_sum id (map player_row.name)
     (get_players example_db ''europe'' None None None None (Some ''jo'')) =
     Inr [''John'', ''joanna'']"
  by (simp add: get_players_def rank_params_fit_def example_db_def example_row_def clause_defs
        text_defs)

text \<open>
  Claim C8. The claim asks for the rows whose lower-case name starts with the lower-case
  prefix. The prefix \<open>_\<close> is handed to \<open>LIKE\<close> as the pattern \<open>_%\<close>, whose first character
  is a wildcard: every stored name is kept, though none of them starts with an
  underscore.
\<close>

theorem underscore_prefix_keeps_every_name:
  "map_sum id (map player_row.name)
     (get_players example_db ''europe'' None None None None (Some ''_'')) =
     Inr [''John'', ''joanna'', ''Bjorn'']
   \<and> \<not> prefix (lower ''_'') (lower ''John'')"
  by (simp add: get_players_def rank_params_fit_def example_db_def example_row_def clause_defs
        text_defs)

subsection \<open>Remote fetcher\<close>

lemma distinct_REGIONS: "distinct REGIONS"
  by (simp add: REGIONS_def)

lemma enumerate_rank_upto:
  "enumerate_rank i ps =
     map2 (\<lambda>idx p. p\<lparr>player.rank := Some idx\<rparr>) [i..i + int (length ps) - 1] ps"
proof (induction ps arbitrary: i)
  case Nil
  then show ?case by simp
next
  case (Cons p ps)
  have "[i..i + int (length (p # ps)) - 1] = i # [i + 1..i + 1 + int (length ps) - 1]"
    by (simp add: upto_rec1)
  then show ?case
    using Cons.IH [of "i + 1"] by simp
qed

lemma rank_enumerate_rank:
  "map player.rank (enumerate_rank i ps) = map Some [i..i + int (length ps) - 1]"
proof (induction ps arbitrary: i)
  case Nil
  then show ?case by simp
next
  case (Cons p ps)
  have "[i..i + int (length (p # ps)) - 1] = i # [i + 1..i + 1 + int (length ps) - 1]"
    by (simp add: upto_rec1)
  then show ?case
    using Cons.IH [of "i + 1"] by simp
qed

lemma length_enumerate_rank: "length (enumerate_rank i ps) = length ps"
  by (induction ps arbitrary: i) simp_all

text \<open>
  What one step of the loop needs from a region's outcome to go on, and what it reads
  from a body that lets it go on.
\<close>

lemma fetch_loop_Cons_Inr:
  assumes "fetch_loop ((region, x) # rest) (al, a, b) = Inr st"
  shows "(\<exists>e. x = Exception e \<and> fetch_loop rest (al, a, b) = Inr st)
       \<or> (\<exists>d entries tp np. x = Response (Object d)
             \<and> get_field (leaderboard d) [] = Some entries
             \<and> get_field (api_data.time_posted d) 0 = Some tp
             \<and> get_field (api_data.next_scheduled_post_time d) 0 = Some np
             \<and> fetch_loop rest
                  (AList.update region (enumerate_rank 1 entries) al, max a tp, max b np) =
                 Inr st)"
proof (cases x)
  case (Exception e)
  with assms show ?thesis by simp
next
  case (Response bd)
  show ?thesis
  proof (cases bd)
    case NotJSON
    with assms Response show ?thesis by simp
  next
    case NotObject
    with assms Response show ?thesis by simp
  next
    case (Object d)
    with assms Response show ?thesis
      by (auto split: option.splits)
  qed
qed

text \<open>The dict after a loop that did not raise, for any list of distinct regions.\<close>

lemma fetch_loop_boards:
  "distinct rs \<Longrightarrow> fetch_loop (zip rs (map g rs)) (al, a, b) = Inr (al', a', b') \<Longrightarrow>
   map_of al' k =
     (if k \<in> set rs
      then (case g k of
              Exception e \<Rightarrow> map_of al k
            | Response bd \<Rightarrow>
                (case bd of
                   Object d \<Rightarrow>
                     map_option (enumerate_rank 1) (get_field (leaderboard d) [])
                 | _ \<Rightarrow> None))
      else map_of al k)"
proof (induction rs arbitrary: al a b)
  case Nil
  then show ?case by simp
next
  case (Cons r rs)
  from Cons.prems(2) have step: "fetch_loop ((r, g r) # zip rs (map g rs)) (al, a, b) =
      Inr (al', a', b')"
    by simp
  from Cons.prems(1) have dist: "distinct rs" and fresh: "r \<notin> set rs"
    by simp_all
  from fetch_loop_Cons_Inr [OF step] show ?case
  proof (elim disjE exE conjE)
    fix e assume "g r = Exception e"
      and "fetch_loop (zip rs (map g rs)) (al, a, b) = Inr (al', a', b')"
    with Cons.IH [OF dist, of al a b] fresh show ?thesis
      by auto
  next
    fix d entries tp np
    assume "g r = Response (Object d)"
      and "get_field (leaderboard d) [] = Some entries"
      and "fetch_loop (zip rs (map g rs))
             (AList.update r (enumerate_rank 1 entries) al, max a tp, max b np) =
           Inr (al', a', b')"
    with Cons.IH [OF dist, of "AList.update r (enumerate_rank 1 entries) al" "max a tp" "max b np"]
      fresh show ?thesis
      by (auto simp: update_conv' split: response.splits body.splits)
  qed
qed

lemma fetch_loop_time_posted:
  "fetch_loop (zip rs (map g rs)) (al, a, b) = Inr (al', a', b') \<Longrightarrow>
   a' = fold max
          (List.map_filter
             (\<lambda>x. case x of
                    Response (Object d) \<Rightarrow> get_field (api_data.time_posted d) 0
                  | _ \<Rightarrow> None)
             (map g rs)) a"
proof (induction rs arbitrary: al a b)
  case Nil
  then show ?case by simp
next
  case (Cons r rs)
  from Cons.prems have step: "fetch_loop ((r, g r) # zip rs (map g rs)) (al, a, b) =
      Inr (al', a', b')"
    by simp
  from fetch_loop_Cons_Inr [OF step] show ?case
  proof (elim disjE exE conjE)
    fix e assume "g r = Exception e"
      and "fetch_loop (zip rs (map g rs)) (al, a, b) = Inr (al', a', b')"
    with Cons.IH [of al a b] show ?thesis by simp
  next
    fix d entries tp np
    assume "g r = Response (Object d)"
      and "get_field (api_data.time_posted d) 0 = Some tp"
      and "fetch_loop (zip rs (map g rs))
             (AList.update r (enumerate_rank 1 entries) al, max a tp, max b np) =
           Inr (al', a', b')"
    with Cons.IH [of "AList.update r (enumerate_rank 1 entries) al" "max a tp" "max b np"]
    show ?thesis by (simp add: max.commute)
  qed
qed

lemma fetch_loop_next_update:
  "fetch_loop (zip rs (map g rs)) (al, a, b) = Inr (al', a', b') \<Longrightarrow>
   b' = fold max
          (List.map_filter
             (\<lambda>x. case x of
                    Response (Object d) \<Rightarrow> get_field (api_data.next_scheduled_post_time d) 0
                  | _ \<Rightarrow> None)
             (map g rs)) b"
proof (induction rs arbitrary: al a b)
  case Nil
  then show ?case by simp
next
  case (Cons r rs)
  from Cons.prems have step: "fetch_loop ((r, g r) # zip rs (map g rs)) (al, a, b) =
      Inr (al', a', b')"
    by simp
  from fetch_loop_Cons_Inr [OF step] show ?case
  proof (elim disjE exE conjE)
    fix e assume "g r = Exception e"
      and "fetch_loop (zip rs (map g rs)) (al, a, b) = Inr (al', a', b')"
    with Cons.IH [of al a b] show ?thesis by simp
  next
    fix d entries tp np
    assume "g r = Response (Object d)"
      and "get_field (api_data.next_scheduled_post_time d) 0 = Some np"
      and "fetch_loop (zip rs (map g rs))
             (AList.update r (enumerate_rank 1 entries) al, max a tp, max b np) =
           Inr (al', a', b')"
    with Cons.IH [of "AList.update r (enumerate_rank 1 entries) al" "max a tp" "max b np"]
    show ?thesis by (simp add: max.commute)
  qed
qed

text \<open>A loop that did not raise met no body it could not read.\<close>

lemma fetch_loop_readable:
  "fetch_loop (zip rs (map g rs)) (al, a, b) = Inr st \<Longrightarrow> r \<in> set rs \<Longrightarrow>
   g r = Response bd \<Longrightarrow>
   \<exists>d entries tp np. bd = Object d
      \<and> get_field (leaderboard d) [] = Some entries
      \<and> get_field (api_data.time_posted d) 0 = Some tp
      \<and> get_field (api_data.next_scheduled_post_time d) 0 = Some np"
proof (induction rs arbitrary: al a b)
  case Nil
  then show ?case by simp
next
  case (Cons x rs)
  from Cons.prems(1) have step: "fetch_loop ((x, g x) # zip rs (map g rs)) (al, a, b) = Inr st"
    by simp
  from fetch_loop_Cons_Inr [OF step] show ?case
  proof (elim disjE exE conjE)
    fix e assume x: "g x = Exception e"
      and rest: "fetch_loop (zip rs (map g rs)) (al, a, b) = Inr st"
    from x Cons.prems(2,3) have "r \<in> set rs" by auto
    from Cons.IH [OF rest this Cons.prems(3)] show ?thesis .
  next
    fix d entries tp np
    assume x: "g x = Response (Object d)"
      and fields: "get_field (leaderboard d) [] = Some entries"
        "get_field (api_data.time_posted d) 0 = Some tp"
        "get_field (api_data.next_scheduled_post_time d) 0 = Some np"
      and rest: "fetch_loop (zip rs (map g rs))
             (AList.update x (enumerate_rank 1 entries) al, max a tp, max b np) = Inr st"
    show ?thesis
    proof (cases "r = x")
      case True
      with x fields Cons.prems(3) show ?thesis by auto
    next
      case False
      with Cons.prems(2) have "r \<in> set rs" by simp
      from Cons.IH [OF rest this Cons.prems(3)] show ?thesis .
    qed
  qed
qed

lemma fetch_leaderboards_Inr:
  assumes "fetch_leaderboards client_get = Inr res"
  obtains al a b where
    "fetch_loop (zip REGIONS (map client_get REGIONS)) ([], 0, 0) = Inr (al, a, b)"
    "res = (if al = [] then None
            else Some \<lparr>boards = al, time_posted = Some a,
                       next_scheduled_post_time = Some b\<rparr>)"
  using assms by (auto simp: fetch_leaderboards_def split: sum.splits)

lemma fetch_leaderboards_boards:
  assumes "fetch_leaderboards client_get = Inr (Some data)"
  shows "map_of (boards data) region =
     (if region \<in> set REGIONS
      then (case client_get region of
              Exception e \<Rightarrow> None
            | Response bd \<Rightarrow>
                (case bd of
                   Object d \<Rightarrow>
                     map_option (enumerate_rank 1) (get_field (leaderboard d) [])
                 | _ \<Rightarrow> None))
      else None)"
proof -
  from assms obtain al a b where
    st: "fetch_loop (zip REGIONS (map client_get REGIONS)) ([], 0, 0) = Inr (al, a, b)"
    and res: "Some data = (if al = [] then None
            else Some \<lparr>boards = al, time_posted = Some a,
                       next_scheduled_post_time = Some b\<rparr>)"
    by (rule fetch_leaderboards_Inr)
  from res have "boards data = al"
    by (auto split: if_splits)
  with fetch_loop_boards [OF distinct_REGIONS st, of region] show ?thesis
    by (simp split: response.splits body.splits)
qed

text \<open>
  As long as every body can be read, the fetch isolates the calls that failed: it returns
  \<open>None\<close> exactly when all of them failed, and else a snapshot in which the regions whose
  call failed have no key.
\<close>

lemma fetch_leaderboards_None:
  "fetch_leaderboards client_get = Inr None \<longleftrightarrow>
     (\<forall>region \<in> set REGIONS. \<exists>e. client_get region = Exception e)"
proof
  assume "fetch_leaderboards client_get = Inr None"
  then obtain al a b where
    st: "fetch_loop (zip REGIONS (map client_get REGIONS)) ([], 0, 0) = Inr (al, a, b)"
    and "None = (if al = [] then None
            else Some \<lparr>boards = al, time_posted = Some a,
                       next_scheduled_post_time = Some b\<rparr>)"
    by (rule fetch_leaderboards_Inr)
  then have empty: "al = []"
    by (simp split: if_splits)
  show "\<forall>region \<in> set REGIONS. \<exists>e. client_get region = Exception e"
  proof
    fix region assume region: "region \<in> set REGIONS"
    show "\<exists>e. client_get region = Exception e"
    proof (cases "client_get region")
      case (Exception e)
      then show ?thesis by blast
    next
      case (Response bd)
      from fetch_loop_readable [OF st region Response] obtain d entries where
        "bd = Object d" "get_field (leaderboard d) [] = Some entries"
        by blast
      with fetch_loop_boards [OF distinct_REGIONS st, of region] region Response empty
      show ?thesis by simp
    qed
  qed
next
  assume failed: "\<forall>region \<in> set REGIONS. \<exists>e. client_get region = Exception e"
  have "fetch_loop (zip rs (map client_get rs)) st = Inr st"
    if "\<forall>region \<in> set rs. \<exists>e. client_get region = Exception e" for rs st
    using that by (induction rs) auto
  from this [OF failed] show "fetch_leaderboards client_get = Inr None"
    by (simp add: fetch_leaderboards_def)
qed

lemma fetch_leaderboards_times:
  assumes "fetch_leaderboards client_get = Inr (Some data)"
  shows "snapshot.time_posted data =
           Some (Max (set (0 # List.map_filter
             (\<lambda>x. case x of
                    Response (Object d) \<Rightarrow> get_field (api_data.time_posted d) 0
                  | _ \<Rightarrow> None)
             (map client_get REGIONS))))"
    and "snapshot.next_scheduled_post_time data =
           Some (Max (set (0 # List.map_filter
             (\<lambda>x. case x of
                    Response (Object d) \<Rightarrow> get_field (api_data.next_scheduled_post_time d) 0
                  | _ \<Rightarrow> None)
             (map client_get REGIONS))))"
proof -
  from assms obtain al a b where
    st: "fetch_loop (zip REGIONS (map client_get REGIONS)) ([], 0, 0) = Inr (al, a, b)"
    and res: "Some data = (if al = [] then None
            else Some \<lparr>boards = al, time_posted = Some a,
                       next_scheduled_post_time = Some b\<rparr>)"
    by (rule fetch_leaderboards_Inr)
  from res have "snapshot.time_posted data = Some a"
    "snapshot.next_scheduled_post_time data = Some b"
    by (auto split: if_splits)
  then show "snapshot.time_posted data =
           Some (Max (set (0 # List.map_filter
             (\<lambda>x. case x of
                    Response (Object d) \<Rightarrow> get_field (api_data.time_posted d) 0
                  | _ \<Rightarrow> None)
             (map client_get REGIONS))))"
    and "snapshot.next_scheduled_post_time data =
           Some (Max (set (0 # List.map_filter
             (\<lambda>x. case x of
                    Response (Object d) \<Rightarrow> get_field (api_data.next_scheduled_post_time d) 0
                  | _ \<Rightarrow> None)
             (map client_get REGIONS))))"
    unfolding Max.set_eq_fold
    using fetch_loop_time_posted [OF st] fetch_loop_next_update [OF st] by simp_all
qed

text \<open>
  Claim C4. The claim asks that the fetch returns \<open>None\<close> only when every call failed,
  and otherwise a snapshot that holds every region that answered. The call for
  \<open>americas\<close> comes back with the page of an HTTP error and the call for \<open>europe\<close> with
  a leaderboard: \<open>response.json()\<close> raises on the page, nothing is returned, and the cycle
  ends in the \<open>except\<close> branch with the database as it was. Had the call for \<open>americas\<close>
  failed instead, the snapshot with the leaderboard of \<open>europe\<close> would have been returned.
\<close>

theorem error_page_fails_the_fetch:
  "fetch_leaderboards error_page_client = Inl JSONDecodeError
   \<and> scheduled_task_cycle error_page_client 1000 example_db = (example_db, 60)
   \<and> fetch_leaderboards (error_page_client(''americas'' := Exception ''timeout'')) =
       Inr (Some \<lparr>boards = [(''europe'',
                                 [(example_player ''Ana'' (Some ''ua''))\<lparr>player.rank := Some 1\<rparr>])],
                       time_posted = Some 1000, next_scheduled_post_time = Some 1600\<rparr>)"
  by (simp add: fetch_leaderboards_def scheduled_task_cycle_def REGIONS_def
        error_page_client_def)

text \<open>
  Claim C5. For a region whose call succeeded with a list of \<open>N\<close> entries, the snapshot
  holds the same entries in the same order, the entry at position \<open>i\<close> with rank \<open>i\<close>:
  the ranks are \<open>1, ..., N\<close>.
\<close>

theorem fetched_ranks_dense:
  assumes "fetch_leaderboards client_get = Inr (Some data)"
    and "region \<in> set REGIONS"
    and "client_get region = Response (Object d)"
  shows "\<exists>ps ranked. get_field (leaderboard d) [] = Some ps
           \<and> map_of (boards data) region = Some ranked
           \<and> length ranked = length ps
           \<and> map player.rank ranked = map Some [1..int (length ps)]
           \<and> ranked = map2 (\<lambda>idx p. p\<lparr>player.rank := Some idx\<rparr>) [1..int (length ps)] ps"
proof -
  from assms(1) obtain al a b where
    "fetch_loop (zip REGIONS (map client_get REGIONS)) ([], 0, 0) = Inr (al, a, b)"
    by (rule fetch_leaderboards_Inr)
  from fetch_loop_readable [OF this assms(2,3)] obtain ps where
    ps: "get_field (leaderboard d) [] = Some ps"
    by auto
  have "map_of (boards data) region = Some (enumerate_rank 1 ps)"
    using fetch_leaderboards_boards [OF assms(1), of region] assms(2,3) ps by simp
  moreover have "length (enumerate_rank 1 ps) = length ps"
    by (rule length_enumerate_rank)
  moreover have "map player.rank (enumerate_rank 1 ps) = map Some [1..int (length ps)]"
    using rank_enumerate_rank [of 1 ps] by simp
  moreover have "enumerate_rank 1 ps =
      map2 (\<lambda>idx p. p\<lparr>player.rank := Some idx\<rparr>) [1..int (length ps)] ps"
    using enumerate_rank_upto [of 1 ps] by simp
  ultimately show ?thesis using ps by blast
qed

theorem fetched_ranks_dense_witness:
  "fetch_leaderboards example_client = Inr (Some example_snapshot)
   \<and> ''europe'' \<in> set REGIONS
   \<and> (\<exists>ranked. map_of (boards example_snapshot) ''europe'' = Some ranked
         \<and> length ranked = 2
         \<and> map player.rank ranked = [Some 1, Some 2]
         \<and> map player.name ranked = [Val ''Ana'', Val ''Bo''])"
proof -
  have fetched: "fetch_leaderboards example_client = Inr (Some example_snapshot)"
    by (simp add: fetch_leaderboards_def REGIONS_def example_client_def example_snapshot_def
          example_player_def)
  have region: "''europe'' \<in> set REGIONS"
    by (simp add: REGIONS_def)
  have response: "example_client ''europe'' =
      Response (Object \<lparr>leaderboard = Val [example_player ''Ana'' (Some ''ua''),
                                            example_player ''Bo'' None],
                        time_posted = Val 1000, next_scheduled_post_time = Val 1600\<rparr>)"
    by (simp add: example_client_def)
  have "\<exists>ranked. map_of (boards example_snapshot) ''europe'' = Some ranked
        \<and> length ranked = 2
        \<and> map player.rank ranked = [Some 1, Some 2]
        \<and> map player.name ranked = [Val ''Ana'', Val ''Bo'']"
    using fetched_ranks_dense [OF fetched region response]
    by (auto simp: upto_rec1 example_player_def)
  with fetched region show ?thesis by blast
qed

subsection \<open>Storage\<close>

lemma insert_player_Inr:
  assumes "insert_player region p tbl = Inr tbl'"
  obtains r where "insert_values p = Some r" "tbl' = tbl @ [(region, r)]"
    "(region, player_row.rank r) \<notin> set (map (\<lambda>(reg, r'). (reg, player_row.rank r')) tbl)"
  using assms by (auto simp: insert_player_def split: option.splits if_splits)

text \<open>
  A run of inserts that succeeds appends one row per player, in order, and the ranks of
  the new rows are pairwise different.
\<close>

lemma executemany_Inr:
  "executemany region ps tbl = Inr tbl' \<Longrightarrow>
   \<exists>rs. map insert_values ps = map Some rs \<and> tbl' = tbl @ map (Pair region) rs
      \<and> distinct (map player_row.rank rs)
      \<and> (\<forall>r \<in> set rs. (region, player_row.rank r)
             \<notin> set (map (\<lambda>(reg, r'). (reg, player_row.rank r')) tbl))"
proof (induction ps arbitrary: tbl)
  case Nil
  then show ?case by simp
next
  case (Cons p ps)
  from Cons.prems obtain t1 where t1: "insert_player region p tbl = Inr t1"
    and rest: "executemany region ps t1 = Inr tbl'"
    by (auto split: sum.splits)
  from t1 obtain r where r: "insert_values p = Some r" "t1 = tbl @ [(region, r)]"
    "(region, player_row.rank r) \<notin> set (map (\<lambda>(reg, r'). (reg, player_row.rank r')) tbl)"
    by (rule insert_player_Inr)
  from Cons.IH [OF rest] obtain rs where rs: "map insert_values ps = map Some rs"
    "tbl' = t1 @ map (Pair region) rs" "distinct (map player_row.rank rs)"
    "\<forall>r \<in> set rs. (region, player_row.rank r)
        \<notin> set (map (\<lambda>(reg, r'). (reg, player_row.rank r')) t1)"
    by blast
  have "map insert_values (p # ps) = map Some (r # rs)"
    using r rs by simp
  moreover have "tbl' = tbl @ map (Pair region) (r # rs)"
    using r rs by simp
  moreover have "distinct (map player_row.rank (r # rs))"
    using rs r by auto
  moreover have "\<forall>x \<in> set (r # rs). (region, player_row.rank x)
      \<notin> set (map (\<lambda>(reg, r'). (reg, player_row.rank r')) tbl)"
    using rs r by auto
  ultimately show ?case by blast
qed

lemma replace_region_other:
  assumes "replace_region data region tbl = Inr tbl'" "region' \<noteq> region"
  shows "filter (\<lambda>(reg, r). reg = region') tbl' = filter (\<lambda>(reg, r). reg = region') tbl"
proof (cases "get_default (map_of (boards data) region) [] = []")
  case True
  with assms show ?thesis by (simp add: replace_region_def)
next
  case False
  with assms have "executemany region (get_default (map_of (boards data) region) [])
      (filter (\<lambda>(reg, r). reg \<noteq> region) tbl) = Inr tbl'"
    by (simp add: replace_region_def)
  from executemany_Inr [OF this] obtain rs where
    "tbl' = filter (\<lambda>(reg, r). reg \<noteq> region) tbl @ map (Pair region) rs"
    by blast
  with assms(2) show ?thesis
    by (auto simp: filter_empty_conv intro: filter_cong)
qed

lemma replace_region_this:
  assumes "replace_region data region tbl = Inr tbl'"
    "map_of (boards data) region = Some rows" "rows \<noteq> []"
  shows "\<exists>rs. map insert_values rows = map Some rs \<and> distinct (map player_row.rank rs)
           \<and> filter (\<lambda>(reg, r). reg = region) tbl' = map (Pair region) rs"
proof -
  from assms have "executemany region rows (filter (\<lambda>(reg, r). reg \<noteq> region) tbl) = Inr tbl'"
    by (simp add: replace_region_def)
  from executemany_Inr [OF this] obtain rs where rs: "map insert_values rows = map Some rs"
    "tbl' = filter (\<lambda>(reg, r). reg \<noteq> region) tbl @ map (Pair region) rs"
    "distinct (map player_row.rank rs)"
    by blast
  have "filter (\<lambda>(reg, r). reg = region) tbl' = map (Pair region) rs"
    unfolding rs(2) by (auto simp: filter_empty_conv filter_id_conv)
  with rs show ?thesis by blast
qed

lemma save_regions_other:
  "save_regions regions data tbl = Inr tbl' \<Longrightarrow> region \<notin> set regions \<Longrightarrow>
   filter (\<lambda>(reg, r). reg = region) tbl' = filter (\<lambda>(reg, r). reg = region) tbl"
proof (induction regions arbitrary: tbl)
  case Nil
  then show ?case by simp
next
  case (Cons x regions)
  from Cons.prems obtain t1 where t1: "replace_region data x tbl = Inr t1"
    and rest: "save_regions regions data t1 = Inr tbl'"
    by (auto split: sum.splits)
  from Cons.prems have "region \<noteq> x" "region \<notin> set regions" by auto
  then show ?case
    using Cons.IH [OF rest] replace_region_other [OF t1] by simp
qed

lemma save_regions_this:
  "save_regions regions data tbl = Inr tbl' \<Longrightarrow> distinct regions \<Longrightarrow>
   region \<in> set regions \<Longrightarrow> map_of (boards data) region = Some rows \<Longrightarrow> rows \<noteq> [] \<Longrightarrow>
   \<exists>rs. map insert_values rows = map Some rs \<and> distinct (map player_row.rank rs)
           \<and> filter (\<lambda>(reg, r). reg = region) tbl' = map (Pair region) rs"
proof (induction regions arbitrary: tbl)
  case Nil
  then show ?case by simp
next
  case (Cons x regions)
  from Cons.prems(1) obtain t1 where t1: "replace_region data x tbl = Inr t1"
    and rest: "save_regions regions data t1 = Inr tbl'"
    by (auto split: sum.splits)
  show ?case
  proof (cases "region = x")
    case True
    with Cons.prems have "region \<notin> set regions" by simp
    from save_regions_other [OF rest this]
    have "filter (\<lambda>(reg, r). reg = region) tbl' = filter (\<lambda>(reg, r). reg = region) t1" .
    with replace_region_this [OF t1 [folded True] Cons.prems(4,5)] show ?thesis by simp
  next
    case False
    with Cons.prems have "distinct regions" "region \<in> set regions" by auto
    from Cons.IH [OF rest this Cons.prems(4,5)] show ?thesis .
  qed
qed

text \<open>A region with a missing or empty list in the snapshot keeps its stored rows.\<close>

lemma save_regions_untouched:
  "save_regions regions data tbl = Inr tbl' \<Longrightarrow>
   get_default (map_of (boards data) region) [] = [] \<Longrightarrow>
   filter (\<lambda>(reg, r). reg = region) tbl' = filter (\<lambda>(reg, r). reg = region) tbl"
proof (induction regions arbitrary: tbl)
  case Nil
  then show ?case by simp
next
  case (Cons x regions)
  from Cons.prems(1) obtain t1 where t1: "replace_region data x tbl = Inr t1"
    and rest: "save_regions regions data t1 = Inr tbl'"
    by (auto split: sum.splits)
  have "filter (\<lambda>(reg, r). reg = region) t1 = filter (\<lambda>(reg, r). reg = region) tbl"
  proof (cases "region = x")
    case True
    with t1 Cons.prems(2) show ?thesis by (simp add: replace_region_def)
  next
    case False
    with replace_region_other [OF t1] show ?thesis by simp
  qed
  with Cons.IH [OF rest Cons.prems(2)] show ?case by simp
qed

lemma save_to_db_untouched:
  assumes "save_to_db data db = Inr db'"
    and "get_default (map_of (boards data) region) [] = []"
  shows "get_players db' region rank_from rank_to countries team name_player =
           get_players db region rank_from rank_to countries team name_player"
proof -
  from assms(1) obtain tbl where tbl: "save_regions REGIONS data (players db) = Inr tbl"
    and db': "players db' = tbl"
    by (auto simp: save_to_db_def split: sum.splits)
  have split: "filter (\<lambda>(reg, r). reg = region \<and> Q r) xs =
      filter (Q \<circ> snd) (filter (\<lambda>(reg, r). reg = region) xs)" for Q xs
    by (induction xs) auto
  show ?thesis
    unfolding get_players_def db' split save_regions_untouched [OF tbl assms(2)] ..
qed

lemma strictly_ascending_sort_key:
  assumes "distinct (map player_row.rank rs)"
  shows "sorted_wrt (<) (map player_row.rank (sort_key player_row.rank rs))"
proof -
  from assms have "distinct rs" "inj_on player_row.rank (set rs)"
    by (simp_all add: distinct_map)
  then have "distinct (map player_row.rank (sort_key player_row.rank rs))"
    by (simp add: distinct_map)
  then show ?thesis
    by (simp add: strict_sorted_iff sorted_sort_key)
qed

lemma map_of_insert_or_replace:
  assumes "insert_or_replace key v tbl = Inr tbl'"
  shows "map_of tbl' = (map_of tbl)(key \<mapsto> v)"
proof -
  have "map_of (filter (\<lambda>(k, _). k \<noteq> key) tbl @ [(key, v)]) = (map_of tbl)(key \<mapsto> v)"
    by (induction tbl) (auto simp: fun_eq_iff)
  with assms show ?thesis
    by (auto simp: insert_or_replace_def split: if_splits)
qed

text \<open>
  Claim C2, for a non-empty list. After a \<open>save_to_db\<close> that succeeds, a query without
  filters for a region of \<open>REGIONS\<close> whose list in the snapshot is not empty returns
  exactly the rows of that list (the column values bound for each player), in strictly
  ascending order of rank, whatever the table held for the region before.
\<close>

theorem replace_then_query:
  assumes "save_to_db data db = Inr db'"
    and "region \<in> set REGIONS"
    and "map_of (boards data) region = Some rows"
    and "rows \<noteq> []"
  shows "\<exists>rs. map insert_values rows = map Some rs
           \<and> get_players db' region None None None None None =
               Inr (sort_key player_row.rank rs)
           \<and> sorted_wrt (<) (map player_row.rank (sort_key player_row.rank rs))"
proof -
  from assms(1) obtain tbl where tbl: "save_regions REGIONS data (players db) = Inr tbl"
    and db': "players db' = tbl"
    by (auto simp: save_to_db_def split: sum.splits)
  from save_regions_this [OF tbl distinct_REGIONS assms(2,3,4)] obtain rs where
    rs: "map insert_values rows = map Some rs" "distinct (map player_row.rank rs)"
      "filter (\<lambda>(reg, r). reg = region) tbl = map (Pair region) rs"
    by blast
  have "get_players db' region None None None None None = Inr (sort_key player_row.rank rs)"
    by (simp add: get_players_no_filter db' rs(3) o_def)
  with rs strictly_ascending_sort_key show ?thesis by blast
qed

theorem replace_then_query_witness:
  "save_to_db shuffled_snapshot example_db = Inr shuffled_saved
   \<and> ''europe'' \<in> set REGIONS
   \<and> map_of (boards shuffled_snapshot) ''europe'' =
       Some [(example_player ''Bo'' None)\<lparr>player.rank := Some 2\<rparr>,
             (example_player ''Ana'' (Some ''ua''))\<lparr>player.rank := Some 1\<rparr>]
   \<and> get_players shuffled_saved ''europe'' None None None None None =
       Inr [example_row 1 ''Ana'' (Some ''ua'') None, example_row 2 ''Bo'' None None]"
proof -
  have saved: "save_to_db shuffled_snapshot example_db = Inr shuffled_saved"
    by (simp add: storage_defs REGIONS_def shuffled_snapshot_def shuffled_saved_def
          example_db_def example_row_def example_player_def)
  have region: "''europe'' \<in> set REGIONS"
    by (simp add: REGIONS_def)
  have board: "map_of (boards shuffled_snapshot) ''europe'' =
       Some [(example_player ''Bo'' None)\<lparr>player.rank := Some 2\<rparr>,
             (example_player ''Ana'' (Some ''ua''))\<lparr>player.rank := Some 1\<rparr>]"
    by (simp add: shuffled_snapshot_def)
  have "[(example_player ''Bo'' None)\<lparr>player.rank := Some 2\<rparr>,
         (example_player ''Ana'' (Some ''ua''))\<lparr>player.rank := Some 1\<rparr>] \<noteq> []"
    by simp
  from replace_then_query [OF saved region board this] obtain rs where
    rs: "map insert_values [(example_player ''Bo'' None)\<lparr>player.rank := Some 2\<rparr>,
             (example_player ''Ana'' (Some ''ua''))\<lparr>player.rank := Some 1\<rparr>] = map Some rs"
      "get_players shuffled_saved ''europe'' None None None None None =
         Inr (sort_key player_row.rank rs)"
    by blast
  have "map insert_values [(example_player ''Bo'' None)\<lparr>player.rank := Some 2\<rparr>,
             (example_player ''Ana'' (Some ''ua''))\<lparr>player.rank := Some 1\<rparr>] =
      map Some [example_row 2 ''Bo'' None None, example_row 1 ''Ana'' (Some ''ua'') None]"
    by (simp add: insert_values_def example_player_def example_row_def)
  with rs(1) have "map Some rs =
      map Some [example_row 2 ''Bo'' None None, example_row 1 ''Ana'' (Some ''ua'') None]"
    by simp
  then have "rs = [example_row 2 ''Bo'' None None, example_row 1 ''Ana'' (Some ''ua'') None]"
    by (simp only: inj_map_eq_map [OF inj_Some])
  with rs(2) have "get_players shuffled_saved ''europe'' None None None None None =
       Inr [example_row 1 ''Ana'' (Some ''ua'') None, example_row 2 ''Bo'' None None]"
    by (simp add: example_row_def)
  with saved region board show ?thesis by blast
qed

text \<open>
  A snapshot that holds the empty list for a region leaves the region's rows as they
  were: the save succeeds and the query still returns the three rows stored before.
\<close>

theorem replace_with_empty_list_counterexample:
  "save_to_db empty_snapshot example_db =
     Inr (example_db\<lparr>metadata := [(''time_posted'', 7), (''next_scheduled_post_time'', 8)]\<rparr>)
   \<and> map_of (boards empty_snapshot) ''europe'' = Some []
   \<and> map_sum id (map player_row.name)
       (get_players
          (example_db\<lparr>metadata := [(''time_posted'', 7), (''next_scheduled_post_time'', 8)]\<rparr>)
          ''europe'' None None None None None) = Inr [''John'', ''joanna'', ''Bjorn'']"
  by (simp add: storage_defs REGIONS_def empty_snapshot_def example_db_def
        example_row_def get_players_def rank_params_fit_def clause_defs)

subsection \<open>Scheduler\<close>

text \<open>
  Claim C3. In a cycle that fetched a snapshot and saved it, the scheduler sleeps
  \<open>next_scheduled_post_time - now\<close> seconds when the snapshot's \<open>next_scheduled_post_time\<close>
  is greater than \<open>now\<close>, and 3600 seconds otherwise.
\<close>

theorem sleep_after_successful_cycle:
  assumes "fetch_leaderboards client_get = Inr (Some data)"
    and "save_to_db data db = Inr db'"
  shows "\<exists>next_update. snapshot.next_scheduled_post_time data = Some next_update
           \<and> scheduled_task_cycle client_get now db =
               (db', if next_update > now then next_update - now else 3600)"
proof -
  from assms(1) obtain next_update where
    "snapshot.next_scheduled_post_time data = Some next_update"
    using fetch_leaderboards_times(2) by blast
  then show ?thesis
    using assms by (simp add: scheduled_task_cycle_def)
qed

theorem sleep_after_successful_cycle_witness:
  "fetch_leaderboards example_client = Inr (Some example_snapshot)
   \<and> save_to_db example_snapshot example_db = Inr example_saved
   \<and> scheduled_task_cycle example_client 1000 example_db = (example_saved, 600)
   \<and> scheduled_task_cycle example_client 1600 example_db = (example_saved, 3600)"
proof -
  have fetched: "fetch_leaderboards example_client = Inr (Some example_snapshot)"
    by (simp add: fetch_leaderboards_def REGIONS_def example_client_def example_snapshot_def
          example_player_def)
  have saved: "save_to_db example_snapshot example_db = Inr example_saved"
    by (simp add: storage_defs REGIONS_def example_snapshot_def example_saved_def
          example_db_def example_row_def example_player_def)
  have next_update: "snapshot.next_scheduled_post_time example_snapshot = Some 1600"
    by (simp add: example_snapshot_def)
  from sleep_after_successful_cycle [OF fetched saved, of 1000]
    sleep_after_successful_cycle [OF fetched saved, of 1600]
  have "scheduled_task_cycle example_client 1000 example_db = (example_saved, 600)"
    "scheduled_task_cycle example_client 1600 example_db = (example_saved, 3600)"
    by (simp_all add: next_update)
  with fetched saved show ?thesis by blast
qed

text \<open>
  Claim C6, with the start value 0 of the two maxima. The metadata after a cycle:
  unchanged when the fetch raised or fetched nothing, or the save failed; after a cycle
  that fetched and saved, both keys are written, each with the maximum of 0 and the
  values of its field in the responses of the regions whose call succeeded, a missing
  field counting as 0.
\<close>

theorem metadata_after_cycle:
  "get_metadata (fst (scheduled_task_cycle client_get now db)) =
     (case fetch_leaderboards client_get of
        Inl e \<Rightarrow> get_metadata db
      | Inr None \<Rightarrow> get_metadata db
      | Inr (Some data) \<Rightarrow>
          (case save_to_db data db of
             Inl e \<Rightarrow> get_metadata db
           | Inr db' \<Rightarrow>
               (get_metadata db)
                 (''time_posted'' \<mapsto>
                    Max (set (0 # List.map_filter
                                (\<lambda>x. case x of
                                       Response (Object d) \<Rightarrow> get_field (api_data.time_posted d) 0
                                     | _ \<Rightarrow> None)
                                (map client_get REGIONS))),
                  ''next_scheduled_post_time'' \<mapsto>
                    Max (set (0 # List.map_filter
                                (\<lambda>x. case x of
                                       Response (Object d) \<Rightarrow> get_field (api_data.next_scheduled_post_time d) 0
                                     | _ \<Rightarrow> None)
                                (map client_get REGIONS))))))"
proof (cases "fetch_leaderboards client_get")
  case (Inl e)
  then show ?thesis by (simp add: scheduled_task_cycle_def)
next
  case (Inr res)
  show ?thesis
  proof (cases res)
    case None
    with Inr show ?thesis by (simp add: scheduled_task_cycle_def)
  next
    case (Some data)
    with Inr have fetched: "fetch_leaderboards client_get = Inr (Some data)"
      by simp
    note times = fetch_leaderboards_times [OF fetched]
    show ?thesis
    proof (cases "save_to_db data db")
      case (Inl e)
      with fetched show ?thesis by (simp add: scheduled_task_cycle_def)
    next
      case saved: (Inr db')
      then obtain meta where
        "insert_or_replace ''time_posted''
           (get_default (snapshot.time_posted data) 0) (metadata db) = Inr meta"
        "insert_or_replace ''next_scheduled_post_time''
           (get_default (snapshot.next_scheduled_post_time data) 0) meta = Inr (metadata db')"
        by (auto simp: save_to_db_def split: sum.splits)
      then have "get_metadata db' =
          (get_metadata db)
            (''time_posted'' \<mapsto> get_default (snapshot.time_posted data) 0,
             ''next_scheduled_post_time'' \<mapsto>
               get_default (snapshot.next_scheduled_post_time data) 0)"
        by (simp add: get_metadata_def map_of_insert_or_replace)
      moreover have "fst (scheduled_task_cycle client_get now db) = db'"
        using fetched saved by (simp add: scheduled_task_cycle_def Let_def)
      ultimately show ?thesis
        using fetched saved by (simp add: times)
    qed
  qed
qed

theorem metadata_after_cycle_witness:
  "get_metadata (fst (scheduled_task_cycle example_client 1000 example_db)) =
     [''time_posted'' \<mapsto> 1000, ''next_scheduled_post_time'' \<mapsto> 1600]
   \<and> get_metadata (fst (scheduled_task_cycle outage_client 1000 example_saved)) =
     get_metadata example_saved
   \<and> get_metadata (fst (scheduled_task_cycle error_page_client 1000 example_saved)) =
     get_metadata example_saved"
proof -
  have fetched: "fetch_leaderboards example_client = Inr (Some example_snapshot)"
    by (simp add: fetch_leaderboards_def REGIONS_def example_client_def example_snapshot_def
          example_player_def)
  have saved: "save_to_db example_snapshot example_db = Inr example_saved"
    by (simp add: storage_defs REGIONS_def example_snapshot_def example_saved_def
          example_db_def example_row_def example_player_def)
  have outage: "fetch_leaderboards outage_client = Inr None"
    by (simp add: fetch_leaderboards_def REGIONS_def outage_client_def)
  have raised: "fetch_leaderboards error_page_client = Inl JSONDecodeError"
    by (simp add: fetch_leaderboards_def REGIONS_def error_page_client_def)
  have posted: "List.map_filter
        (\<lambda>x. case x of
               Response (Object d) \<Rightarrow> get_field (api_data.time_posted d) 0
             | _ \<Rightarrow> None)
        (map example_client REGIONS) = [1000, 900]"
    and scheduled: "List.map_filter
        (\<lambda>x. case x of
               Response (Object d) \<Rightarrow> get_field (api_data.next_scheduled_post_time d) 0
             | _ \<Rightarrow> None)
        (map example_client REGIONS) = [1600, 0]"
    by (simp_all add: REGIONS_def example_client_def)
  have before: "get_metadata example_db = Map.empty"
    by (simp add: get_metadata_def example_db_def)
  have "get_metadata (fst (scheduled_task_cycle example_client 1000 example_db)) =
     [''time_posted'' \<mapsto> 1000, ''next_scheduled_post_time'' \<mapsto> 1600]"
    using metadata_after_cycle [of example_client 1000 example_db]
    unfolding fetched posted scheduled before by (simp add: saved)
  moreover have "get_metadata (fst (scheduled_task_cycle outage_client 1000 example_saved)) =
     get_metadata example_saved"
    using metadata_after_cycle [of outage_client 1000 example_saved]
    by (simp add: outage)
  moreover have
    "get_metadata (fst (scheduled_task_cycle error_page_client 1000 example_saved)) =
     get_metadata example_saved"
    using metadata_after_cycle [of error_page_client 1000 example_saved]
    by (simp add: raised)
  ultimately show ?thesis by blast
qed

text \<open>
  One region answers, with \<open>time_posted = -5\<close> and \<open>next_scheduled_post_time = -3\<close>. The
  cycle fetches and saves (it ends in the sleep of 3600 seconds), and both stored values
  are 0, which no region reported.
\<close>

theorem metadata_negative_times_counterexample:
  "snd (scheduled_task_cycle past_client 0 example_db) = 3600
   \<and> get_metadata (fst (scheduled_task_cycle past_client 0 example_db)) ''time_posted'' = Some 0
   \<and> get_metadata (fst (scheduled_task_cycle past_client 0 example_db))
       ''next_scheduled_post_time'' = Some 0
   \<and> List.map_filter
       (\<lambda>x. case x of
              Response (Object d) \<Rightarrow> get_field (api_data.time_posted d) 0
            | _ \<Rightarrow> None)
       (map past_client REGIONS) = [- 5]
   \<and> List.map_filter
       (\<lambda>x. case x of
              Response (Object d) \<Rightarrow> get_field (api_data.next_scheduled_post_time d) 0
            | _ \<Rightarrow> None)
       (map past_client REGIONS) = [- 3]"
  by (simp add: scheduled_task_cycle_def fetch_leaderboards_def storage_defs REGIONS_def
        past_client_def example_db_def example_row_def example_player_def get_metadata_def)

subsection \<open>Country index\<close>

lemma set_distinct_values: "set (distinct_values xs) = set xs"
  by (induction xs rule: distinct_values.induct) auto

lemma distinct_distinct_values: "distinct (distinct_values xs)"
  by (induction xs rule: distinct_values.induct) (auto simp: set_distinct_values)

text \<open>
  Claim C9. The keys of \<open>get_countries\<close> are the country codes stored for the region, in
  upper case and each once; every key is mapped to its name in the reference table, or to
  \<open>Unknown\<close> when the table has no entry for it; the entries are in ascending order of
  the names.
\<close>

theorem country_index:
  "set (map fst (get_countries countries_by_alpha2 db region)) =
     UPPER ` {c. \<exists>r. (region, r) \<in> set (players db) \<and> player_row.country r = Some c}
   \<and> distinct (map fst (get_countries countries_by_alpha2 db region))
   \<and> map snd (get_countries countries_by_alpha2 db region) =
       map (\<lambda>code. case countries_by_alpha2 code of Some n \<Rightarrow> n | None \<Rightarrow> ''Unknown'')
         (map fst (get_countries countries_by_alpha2 db region))
   \<and> sorted (map snd (get_countries countries_by_alpha2 db region))"
proof -
  define codes where "codes = distinct_values (map UPPER
     (List.map_filter (\<lambda>(reg, r). if reg = region then player_row.country r else None)
        (players db)))"
  define full where "full = map (\<lambda>code. (code,
     (case countries_by_alpha2 code of Some n \<Rightarrow> n | None \<Rightarrow> ''Unknown''))) codes"
  have res: "get_countries countries_by_alpha2 db region = sort_key snd full"
    by (simp add: get_countries_def codes_def full_def)
  have fst_full: "map fst full = codes"
    by (simp add: full_def o_def)
  have "set (List.map_filter (\<lambda>(reg, r). if reg = region then player_row.country r else None)
          (players db)) =
      {c. \<exists>r. (region, r) \<in> set (players db) \<and> player_row.country r = Some c}"
    by (auto simp: List.map_filter_def split: if_splits) force
  then have codes: "set codes =
      UPPER ` {c. \<exists>r. (region, r) \<in> set (players db) \<and> player_row.country r = Some c}"
    by (simp add: codes_def set_distinct_values)
  have "set (map fst (sort_key snd full)) = set (map fst full)"
    by simp
  then have keys: "set (map fst (sort_key snd full)) = set codes"
    by (simp only: fst_full)
  have "distinct (map fst full)"
    by (simp add: fst_full codes_def distinct_distinct_values)
  then have "distinct full" "inj_on fst (set full)"
    by (simp_all add: distinct_map)
  then have dist: "distinct (map fst (sort_key snd full))"
    by (simp add: distinct_map)
  have "\<forall>z \<in> set (sort_key snd full).
      snd z = (case countries_by_alpha2 (fst z) of Some n \<Rightarrow> n | None \<Rightarrow> ''Unknown'')"
    by (auto simp: full_def)
  then have names: "map snd (sort_key snd full) =
       map (\<lambda>code. case countries_by_alpha2 code of Some n \<Rightarrow> n | None \<Rightarrow> ''Unknown'')
         (map fst (sort_key snd full))"
    by (simp add: o_def)
  show ?thesis
    unfolding res using keys codes dist names sorted_sort_key [of snd full] by simp
qed

theorem country_index_witness:
  "get_countries example_table example_db ''europe'' =
     [(''SE'', ''Sweden''), (''US'', ''United States of America'')]
   \<and> get_countries [''SE'' \<mapsto> ''Sweden''] example_db ''europe'' =
     [(''SE'', ''Sweden''), (''US'', ''Unknown'')]
   \<and> sorted (map snd (get_countries [''SE'' \<mapsto> ''Sweden''] example_db ''europe''))"
  using country_index [of "[''SE'' \<mapsto> ''Sweden'']" example_db "''europe''"]
  by (simp add: get_countries_def example_db_def example_row_def example_table_def
        text_defs List.map_filter_def)

end
